theory Spec2Isabelle
  imports Complex_Main "HOL-Library.AList" "HOL-Library.Sublist" "HOL-Library.Multiset"
begin

section \<open>Data model\<close>

text \<open>
  A Python \<open>str\<close> is a sequence of Unicode code points. Station names are Chinese, so a
  name is modelled as the list of its code points; \<open>len\<close>, \<open>endswith\<close> and slicing
  count code points, as Python does. \<open>ascii\<close> embeds an ASCII literal.
\<close>

type_synonym pystr = "nat list"

definition ascii :: "string \<Rightarrow> pystr" where
  "ascii s = map of_char s"

text \<open>
  A row of \<open>csv.DictReader\<close> is a dict from column names to values; a short row
  fills the missing columns with \<open>None\<close>. \<open>row.get(k)\<close> returns \<open>None\<close> for
  an absent column as well.
\<close>

type_synonym csv_row = "pystr \<rightharpoonup> pystr option"

definition row_get :: "csv_row \<Rightarrow> pystr \<Rightarrow> pystr option" where
  "row_get row k = (case row k of None \<Rightarrow> None | Some v \<Rightarrow> v)"

text \<open>Truth value of an optional string: \<open>None\<close> and \<open>''\<close> are false.\<close>

definition truthy :: "pystr option \<Rightarrow> bool" where
  "truthy v = (case v of None \<Rightarrow> False | Some s \<Rightarrow> s \<noteq> [])"

text \<open>
  \<open>networkx.DiGraph\<close> without attributes: the nodes in insertion order and the
  directed edges, each stored once. Only the set of edges is observed below, so the
  edges are kept in one list in insertion order.
\<close>

record digraph =
  nodes :: "pystr list"
  edges :: "(pystr \<times> pystr) list"

definition DiGraph :: digraph where
  "DiGraph = \<lparr>nodes = [], edges = []\<rparr>"

text \<open>
  \<open>G.add_edge(u, v)\<close>: \<open>u\<close> then \<open>v\<close> become nodes when they are not yet, and
  the adjacency entry \<open>u \<rightarrow> v\<close> is set (it is a dict entry: setting it again changes
  nothing).
\<close>

definition add_edge :: "digraph \<Rightarrow> pystr \<Rightarrow> pystr \<Rightarrow> digraph" where
  "add_edge g u v =
     (let ns = (if u \<in> set (nodes g) then nodes g else nodes g @ [u]);
          ns' = (if v \<in> set ns then ns else ns @ [v])
      in \<lparr>nodes = ns',
          edges = (if (u, v) \<in> set (edges g) then edges g else edges g @ [(u, v)])\<rparr>)"

section \<open>Edge loader: \<open>build_graph_from_csv\<close>\<close>

definition SRC :: pystr where "SRC = ascii ''src''"
definition DST :: pystr where "DST = ascii ''dst''"

text \<open>The body of the loop over the rows of the line file (source lines 30 to 38).\<close>

definition build_graph_row :: "csv_row \<Rightarrow> digraph \<Rightarrow> digraph" where
  "build_graph_row row graph =
     (let src_station = row_get row SRC;
          dst_station = row_get row DST
      in if truthy src_station \<and> truthy dst_station
         then (case (src_station, dst_station) of
                 (Some s, Some d) \<Rightarrow> add_edge graph s d
               | _ \<Rightarrow> graph)
         else graph)"

text \<open>
  The file is \<open>None\<close> when it cannot be opened or read (the function reports and
  returns \<open>False\<close>); otherwise it is the list of its rows. The graph is mutated in
  place, so the model returns it with the flag.
\<close>

definition build_graph_from_csv :: "csv_row list option \<Rightarrow> digraph \<Rightarrow> bool \<times> digraph" where
  "build_graph_from_csv line_csv_file graph =
     (case line_csv_file of
        None \<Rightarrow> (False, graph)
      | Some rows \<Rightarrow> (True, fold build_graph_row rows graph))"

section \<open>Floating-point values\<close>

text \<open>
  A Python \<open>float\<close> (and an element of a numpy \<open>float64\<close> array) is a finite
  number, an infinity or not-a-number. A finite value is given by the real number it
  denotes.
\<close>

datatype pyfloat = Fin real | PInf | NInf | NaN

datatype pyerr = ValueError | TypeError | KeyError | PowerIterationFailedConvergence

subsection \<open>The builtin \<open>float\<close> on a \<open>str\<close>\<close>

text \<open>
  \<open>float(s)\<close> follows the grammar of the language reference: surrounding
  whitespace is stripped, then an optional sign, then \<open>inf\<close>, \<open>infinity\<close> or
  \<open>nan\<close> in any letter case, or a decimal number with an optional exponent, where
  single underscores may separate digits. Anything else raises \<open>ValueError\<close>.
  The digits recognised here are the ASCII ones. A decimal too large for binary64
  becomes an infinity; otherwise the value of the decimal is kept as it is written,
  without the rounding to binary64 (so without underflow to zero either).
\<close>

definition is_space :: "nat \<Rightarrow> bool" where
  "is_space c \<longleftrightarrow>
     (9 \<le> c \<and> c \<le> 13) \<or> (28 \<le> c \<and> c \<le> 32) \<or> c = 133 \<or> c = 160 \<or> c = 5760 \<or>
     (8192 \<le> c \<and> c \<le> 8202) \<or> c = 8232 \<or> c = 8233 \<or> c = 8239 \<or> c = 8287 \<or> c = 12288"

definition strip :: "pystr \<Rightarrow> pystr" where
  "strip s = rev (dropWhile is_space (rev (dropWhile is_space s)))"

definition lower :: "nat \<Rightarrow> nat" where
  "lower c = (if 65 \<le> c \<and> c \<le> 90 then c + 32 else c)"

definition is_digit :: "nat \<Rightarrow> bool" where
  "is_digit c \<longleftrightarrow> 48 \<le> c \<and> c \<le> 57"

definition split_sign :: "pystr \<Rightarrow> bool \<times> pystr" where
  "split_sign s =
     (case s of
        [] \<Rightarrow> (False, [])
      | c # r \<Rightarrow> if c = 45 then (True, r) else if c = 43 then (False, r) else (False, s))"

text \<open>The longest prefix \<open>digit (["_"] digit)*\<close>, as digit values, and the rest.\<close>

fun digitpart :: "pystr \<Rightarrow> nat list \<times> pystr" where
  "digitpart [] = ([], [])"
| "digitpart [c] = (if is_digit c then ([c - 48], []) else ([], [c]))"
| "digitpart (c # u # r) =
     (if is_digit c then
        (if is_digit u then
           (let (ds, r') = digitpart (u # r) in ((c - 48) # ds, r'))
         else if u = 95 \<and> (case r of [] \<Rightarrow> False | d # _ \<Rightarrow> is_digit d) then
           (let (ds, r') = digitpart r in ((c - 48) # ds, r'))
         else ([c - 48], u # r))
      else ([], c # u # r))"

definition digits_value :: "nat list \<Rightarrow> nat" where
  "digits_value ds = fold (\<lambda>d acc. 10 * acc + d) ds 0"

text \<open>\<open>[digitpart] "." digitpart | digitpart ["."]\<close>: integer digits, fraction digits, rest.\<close>

definition mantissa :: "pystr \<Rightarrow> (nat list \<times> nat list \<times> pystr) option" where
  "mantissa s =
     (let (ip, r1) = digitpart s in
      case r1 of
        [] \<Rightarrow> if ip = [] then None else Some (ip, [], [])
      | c # r2 \<Rightarrow>
          if c = 46 then
            (let (fp, r3) = digitpart r2 in
             if ip = [] \<and> fp = [] then None else Some (ip, fp, r3))
          else if ip = [] then None else Some (ip, [], r1))"

text \<open>The optional exponent \<open>("e" | "E") [sign] digitpart\<close>, which must end the text.\<close>

definition exponent :: "pystr \<Rightarrow> int option" where
  "exponent s =
     (case s of
        [] \<Rightarrow> Some 0
      | c # r \<Rightarrow>
          if c = 101 \<or> c = 69 then
            (let (neg, r') = split_sign r; (ds, r'') = digitpart r' in
             if ds = [] \<or> r'' \<noteq> [] then None
             else Some (if neg then - int (digits_value ds) else int (digits_value ds)))
          else None)"

definition scale10 :: "real \<Rightarrow> int \<Rightarrow> real" where
  "scale10 m e = (if 0 \<le> e then m * 10 ^ nat e else m / 10 ^ nat (- e))"

text \<open>Values at or beyond \<open>2^1024 - 2^970\<close> round to an infinity in binary64.\<close>

definition to_binary64 :: "real \<Rightarrow> pyfloat" where
  "to_binary64 x =
     (if 2 ^ 1024 - 2 ^ 970 \<le> x then PInf
      else if x \<le> - (2 ^ 1024 - 2 ^ 970) then NInf
      else Fin x)"

definition py_float :: "pystr \<Rightarrow> pyerr + pyfloat" where
  "py_float s =
     (let (neg, body) = split_sign (strip s); low = map lower body in
      if low = ascii ''inf'' \<or> low = ascii ''infinity'' then Inr (if neg then NInf else PInf)
      else if low = ascii ''nan'' then Inr NaN
      else
        (case mantissa body of
           None \<Rightarrow> Inl ValueError
         | Some (ip, fp, rest) \<Rightarrow>
             (case exponent rest of
                None \<Rightarrow> Inl ValueError
              | Some e \<Rightarrow>
                  (let x = scale10 (real (digits_value (ip @ fp))) (e - int (length fp))
                   in Inr (to_binary64 (if neg then - x else x))))))"

section \<open>Coordinate loader: \<open>load_coordinates_from_csv\<close>\<close>

text \<open>
  The dict \<open>pos\<close> keeps insertion order: assigning to a key that is present
  replaces its value in place, assigning to a new key appends the entry. That is
  \<open>AList.update\<close> on the list of items.
\<close>

type_synonym coords = "pyfloat \<times> pyfloat"
type_synonym pos_dict = "(pystr \<times> coords) list"

text \<open>The column names of the coordinate file; the first is the two characters U+7AD9 U+540D.\<close>

definition NAME :: pystr where "NAME = [31449, 21517]"
definition LNG :: pystr where "LNG = ascii ''WGS84_Lng''"
definition LAT :: pystr where "LAT = ascii ''WGS84_Lat''"

text \<open>The designator character, U+7AD9.\<close>

definition designator :: nat where "designator = 31449"

definition endswith :: "pystr \<Rightarrow> nat \<Rightarrow> bool" where
  "endswith s c \<longleftrightarrow> s \<noteq> [] \<and> last s = c"

text \<open>Source lines 68 and 69: \<open>station_name[:-1]\<close> when the name ends with the designator.\<close>

definition strip_designator :: "pystr \<Rightarrow> pystr" where
  "strip_designator station_name =
     (if endswith station_name designator then butlast station_name else station_name)"

text \<open>
  Source lines 63 to 70, up to the assignment: the key and the value that the row
  assigns, or \<open>None\<close> when the row is passed over (a field is missing or empty, or
  \<open>float\<close> raises and the exception is caught). The conversion \<open>float\<close> is a
  parameter; \<open>py_float\<close> is the builtin.
\<close>

definition coord_entry :: "(pystr \<Rightarrow> pyerr + pyfloat) \<Rightarrow> csv_row \<Rightarrow> (pystr \<times> coords) option" where
  "coord_entry float row =
     (let station_name = row_get row NAME;
          lon_str = row_get row LNG;
          lat_str = row_get row LAT
      in if truthy station_name \<and> truthy lon_str \<and> truthy lat_str
         then (case (station_name, lon_str, lat_str) of
                 (Some name, Some lon, Some lat) \<Rightarrow>
                   (let station_name' = strip_designator name in
                    case float lon of
                      Inl _ \<Rightarrow> None
                    | Inr x \<Rightarrow>
                        (case float lat of
                           Inl _ \<Rightarrow> None
                         | Inr y \<Rightarrow> Some (station_name', (x, y))))
               | _ \<Rightarrow> None)
         else None)"

definition load_coordinates_row ::
    "(pystr \<Rightarrow> pyerr + pyfloat) \<Rightarrow> csv_row \<Rightarrow> pos_dict \<Rightarrow> pos_dict" where
  "load_coordinates_row float row pos =
     (case coord_entry float row of
        None \<Rightarrow> pos
      | Some (k, v) \<Rightarrow> AList.update k v pos)"

text \<open>The file is \<open>None\<close> when it cannot be opened or read: the function returns \<open>None\<close>.\<close>

definition load_coordinates_from_csv ::
    "(pystr \<Rightarrow> pyerr + pyfloat) \<Rightarrow> csv_row list option \<Rightarrow> pos_dict option" where
  "load_coordinates_from_csv float coords_csv_file =
     (case coords_csv_file of
        None \<Rightarrow> None
      | Some rows \<Rightarrow> Some (fold (load_coordinates_row float) rows []))"

section \<open>Graph filter (source lines 98 to 105)\<close>

datatype exit = ExitGraphLoad | ExitNoCoordinates | EmptyIntersection | Uncaught pyerr

text \<open>
  \<open>valid_nodes\<close> is the list of a set intersection; Python leaves its order open and
  nothing below depends on it. The model lists it in the graph's node order.
\<close>

definition valid_nodes :: "digraph \<Rightarrow> pos_dict \<Rightarrow> pystr list" where
  "valid_nodes G pos = filter (\<lambda>n. n \<in> set (map fst pos)) (remdups (nodes G))"

text \<open>\<open>G.subgraph(ns)\<close>: the nodes of \<open>G\<close> that are in \<open>ns\<close>, and the edges between them.\<close>

definition subgraph :: "digraph \<Rightarrow> pystr list \<Rightarrow> digraph" where
  "subgraph G ns =
     \<lparr>nodes = filter (\<lambda>n. n \<in> set ns) (nodes G),
      edges = filter (\<lambda>(u, v). u \<in> set ns \<and> v \<in> set ns) (edges G)\<rparr>"

definition graph_filter :: "digraph \<Rightarrow> pos_dict \<Rightarrow> exit + (digraph \<times> pos_dict)" where
  "graph_filter G pos =
     (let vn = valid_nodes G pos in
      if vn = [] then Inl EmptyIntersection
      else Inr (subgraph G vn, filter (\<lambda>(node, coords). node \<in> set vn) pos))"

section \<open>Rounding to binary64\<close>

text \<open>
  Round to nearest, ties to even. A non-zero \<open>x\<close> lies in the binade of exponent
  \<open>\<lfloor>log\<^sub>2 \<bar>x\<bar>\<rfloor>\<close>, taken as \<open>-1022\<close> below the normal range; the
  binary64 values there are the multiples of \<open>2\<close> to that exponent less 52, and \<open>x\<close>
  rounds to the nearest of them, to the even multiple when two are equally near.
  Overflow to an infinity is decided where the rounding is used.
\<close>

definition rne :: "real \<Rightarrow> int" where
  "rne q =
     (let f = \<lfloor>q\<rfloor>; r = q - of_int f
      in if r < 1 / 2 then f else if 1 / 2 < r then f + 1 else if even f then f else f + 1)"

definition binary64_exponent :: "real \<Rightarrow> int" where
  "binary64_exponent x = max \<lfloor>log 2 \<bar>x\<bar>\<rfloor> (- 1022)"

definition binary64_round :: "real \<Rightarrow> real" where
  "binary64_round x =
     (if x = 0 then 0
      else (let u = 2 powr (of_int (binary64_exponent x) - 52)
            in sgn x * of_int (rne (\<bar>x\<bar> / u)) * u))"

text \<open>A base-10 logarithm that returns the binary64 value nearest to the exact one.\<close>

definition log10_rounded :: "real \<Rightarrow> real" where
  "log10_rounded x = binary64_round (log 10 x)"

section \<open>Visual scaling (source lines 112 to 120)\<close>

text \<open>
  The numpy operations used, elementwise on \<open>float64\<close>; none of them raises. Every
  arithmetic result is rounded to binary64: the rounding of the exact result is the
  parameter \<open>rnd\<close> (\<open>binary64_round\<close> on the usual hardware), and an exact result at
  or beyond \<open>2^1024 - 2^970\<close> is an infinity. \<open>np.log10\<close> is the logarithm of the
  platform's C library, which is not specified to the last bit: its value at a
  positive finite argument is the parameter \<open>log10\<close>.
\<close>

definition np_result :: "(real \<Rightarrow> real) \<Rightarrow> real \<Rightarrow> pyfloat" where
  "np_result rnd x =
     (if 2 ^ 1024 - 2 ^ 970 \<le> x then PInf
      else if x \<le> - (2 ^ 1024 - 2 ^ 970) then NInf
      else Fin (rnd x))"

fun np_log10 :: "(real \<Rightarrow> real) \<Rightarrow> pyfloat \<Rightarrow> pyfloat" where
  "np_log10 log10 (Fin x) = (if 0 < x then Fin (log10 x) else if x = 0 then NInf else NaN)"
| "np_log10 log10 PInf = PInf"
| "np_log10 log10 NInf = NaN"
| "np_log10 log10 NaN = NaN"

fun np_minimum :: "pyfloat \<Rightarrow> pyfloat \<Rightarrow> pyfloat" where
  "np_minimum NaN _ = NaN"
| "np_minimum _ NaN = NaN"
| "np_minimum NInf _ = NInf"
| "np_minimum _ NInf = NInf"
| "np_minimum PInf b = b"
| "np_minimum a PInf = a"
| "np_minimum (Fin a) (Fin b) = Fin (min a b)"

fun np_maximum :: "pyfloat \<Rightarrow> pyfloat \<Rightarrow> pyfloat" where
  "np_maximum NaN _ = NaN"
| "np_maximum _ NaN = NaN"
| "np_maximum PInf _ = PInf"
| "np_maximum _ PInf = PInf"
| "np_maximum NInf b = b"
| "np_maximum a NInf = a"
| "np_maximum (Fin a) (Fin b) = Fin (max a b)"

text \<open>\<open>np.min\<close> and \<open>np.max\<close> raise \<open>ValueError\<close> on an empty array.\<close>

definition np_min :: "pyfloat list \<Rightarrow> pyerr + pyfloat" where
  "np_min xs = (case xs of [] \<Rightarrow> Inl ValueError | x # r \<Rightarrow> Inr (fold (\<lambda>y acc. np_minimum acc y) r x))"

definition np_max :: "pyfloat list \<Rightarrow> pyerr + pyfloat" where
  "np_max xs = (case xs of [] \<Rightarrow> Inl ValueError | x # r \<Rightarrow> Inr (fold (\<lambda>y acc. np_maximum acc y) r x))"

fun np_neg :: "pyfloat \<Rightarrow> pyfloat" where
  "np_neg (Fin a) = Fin (- a)"
| "np_neg PInf = NInf"
| "np_neg NInf = PInf"
| "np_neg NaN = NaN"

fun np_add :: "(real \<Rightarrow> real) \<Rightarrow> pyfloat \<Rightarrow> pyfloat \<Rightarrow> pyfloat" where
  "np_add rnd NaN _ = NaN"
| "np_add rnd _ NaN = NaN"
| "np_add rnd (Fin a) (Fin b) = np_result rnd (a + b)"
| "np_add rnd PInf NInf = NaN"
| "np_add rnd NInf PInf = NaN"
| "np_add rnd PInf _ = PInf"
| "np_add rnd NInf _ = NInf"
| "np_add rnd (Fin a) b = b"

definition np_sub :: "(real \<Rightarrow> real) \<Rightarrow> pyfloat \<Rightarrow> pyfloat \<Rightarrow> pyfloat" where
  "np_sub rnd a b = np_add rnd a (np_neg b)"

text \<open>The sign of a non-zero value; zero and not-a-number have none here.\<close>

fun positive :: "pyfloat \<Rightarrow> bool" where
  "positive (Fin a) = (0 < a)"
| "positive PInf = True"
| "positive NInf = False"
| "positive NaN = False"

fun np_mul :: "(real \<Rightarrow> real) \<Rightarrow> pyfloat \<Rightarrow> pyfloat \<Rightarrow> pyfloat" where
  "np_mul rnd NaN _ = NaN"
| "np_mul rnd _ NaN = NaN"
| "np_mul rnd (Fin a) (Fin b) = np_result rnd (a * b)"
| "np_mul rnd (Fin a) b = (if a = 0 then NaN else if (0 < a) = positive b then PInf else NInf)"
| "np_mul rnd a (Fin b) = (if b = 0 then NaN else if (0 < b) = positive a then PInf else NInf)"
| "np_mul rnd a b = (if positive a = positive b then PInf else NInf)"

text \<open>
  Division of arrays does not raise: a finite non-zero value over zero is an infinity
  and zero over zero is not-a-number (numpy only warns). Zero is taken as positive
  zero.
\<close>

fun np_div :: "(real \<Rightarrow> real) \<Rightarrow> pyfloat \<Rightarrow> pyfloat \<Rightarrow> pyfloat" where
  "np_div rnd NaN _ = NaN"
| "np_div rnd _ NaN = NaN"
| "np_div rnd (Fin a) (Fin b) =
     (if b \<noteq> 0 then np_result rnd (a / b)
      else if a = 0 then NaN else if 0 < a then PInf else NInf)"
| "np_div rnd (Fin a) b = Fin 0"
| "np_div rnd a (Fin b) = (if (0 \<le> b) = positive a then PInf else NInf)"
| "np_div rnd a b = NaN"

text \<open>Source line 114; the literal \<open>1e-9\<close> is the binary64 value nearest to it.\<close>

definition sizes_log :: "(real \<Rightarrow> real) \<Rightarrow> (real \<Rightarrow> real) \<Rightarrow> real list \<Rightarrow> pyfloat list" where
  "sizes_log rnd log10 scores =
     map (\<lambda>s. np_log10 log10 (np_add rnd (Fin s) (Fin (rnd (1 / 10 ^ 9))))) scores"

definition node_sizes_scaled ::
    "(real \<Rightarrow> real) \<Rightarrow> (real \<Rightarrow> real) \<Rightarrow> real list \<Rightarrow> pyerr + pyfloat list" where
  "node_sizes_scaled rnd log10 scores =
     (let sizes_log = sizes_log rnd log10 scores in
      case np_min sizes_log of
        Inl e \<Rightarrow> Inl e
      | Inr min_log_size \<Rightarrow>
          (case np_max sizes_log of
             Inl e \<Rightarrow> Inl e
           | Inr max_log_size \<Rightarrow>
               (let norm_sizes = map (\<lambda>l. np_div rnd (np_sub rnd l min_log_size)
                                                      (np_sub rnd max_log_size min_log_size))
                                     sizes_log;
                    min_display_size = 5;
                    max_display_size = 300
                in Inr (map (\<lambda>n. np_add rnd
                                     (np_mul rnd n (Fin (max_display_size - min_display_size)))
                                     (Fin min_display_size)) norm_sizes))))"

section \<open>Label selector (source lines 123 to 128)\<close>

text \<open>
  The score dict as the list of its items in insertion order.
  \<open>sorted(items, key=score, reverse=True)\<close> is a stable sort by descending score:
  items of equal score keep their input order. That is the stable insertion sort
  \<open>sort_key\<close> on the negated score.
\<close>

type_synonym score_map = "(pystr \<times> real) list"

definition sorted_stations :: "score_map \<Rightarrow> (pystr \<times> real) list" where
  "sorted_stations pagerank_scores = sort_key (\<lambda>item. - snd item) pagerank_scores"

definition labels_to_draw :: "score_map \<Rightarrow> pystr list" where
  "labels_to_draw pagerank_scores = map fst (take 15 (sorted_stations pagerank_scores))"

section \<open>The script (source lines 84 to 197)\<close>

text \<open>\<open>pagerank_scores.get(node, 0)\<close>\<close>

definition score_get :: "score_map \<Rightarrow> pystr \<Rightarrow> real" where
  "score_get pagerank_scores node = (case map_of pagerank_scores node of None \<Rightarrow> 0 | Some s \<Rightarrow> s)"

text \<open>What the drawing calls of stage 7 receive.\<close>

record figure =
  fig_graph :: digraph
  fig_pos :: pos_dict
  node_size :: "pyfloat list"
  node_color :: "real list"
  fig_labels :: "pystr list"

text \<open>
  Each stage prints its number when it starts; the script's result is the list of the
  stages started and either the exit taken or the figure drawn. \<open>nx.pagerank\<close> is
  the parameter \<open>pagerank\<close>; \<open>rnd\<close> and \<open>log10\<close> are those of the visual scaling.
\<close>

definition rank_and_render ::
    "(digraph \<Rightarrow> pyerr + score_map) \<Rightarrow> (real \<Rightarrow> real) \<Rightarrow> (real \<Rightarrow> real) \<Rightarrow>
     digraph \<Rightarrow> pos_dict \<Rightarrow> nat list \<times> (exit + figure)" where
  "rank_and_render pagerank rnd log10 G_filtered pos_filtered =
     (case pagerank G_filtered of
        Inl e \<Rightarrow> ([4], Inl (Uncaught e))
      | Inr pagerank_scores \<Rightarrow>
          (let scores = map (score_get pagerank_scores) (nodes G_filtered) in
           case node_sizes_scaled rnd log10 scores of
             Inl e \<Rightarrow> ([4, 5], Inl (Uncaught e))
           | Inr sizes \<Rightarrow>
               ([4, 5, 6, 7],
                Inr \<lparr>fig_graph = G_filtered, fig_pos = pos_filtered, node_size = sizes,
                     node_color = scores, fig_labels = labels_to_draw pagerank_scores\<rparr>)))"

definition filter_rank_render ::
    "(digraph \<Rightarrow> pyerr + score_map) \<Rightarrow> (real \<Rightarrow> real) \<Rightarrow> (real \<Rightarrow> real) \<Rightarrow>
     digraph \<Rightarrow> pos_dict \<Rightarrow> nat list \<times> (exit + figure)" where
  "filter_rank_render pagerank rnd log10 G pos =
     (case graph_filter G pos of
        Inl e \<Rightarrow> ([3], Inl e)
      | Inr (G_filtered, pos_filtered) \<Rightarrow>
          (let (stages, r) = rank_and_render pagerank rnd log10 G_filtered pos_filtered
           in (3 # stages, r)))"

definition main_script ::
    "(digraph \<Rightarrow> pyerr + score_map) \<Rightarrow> (pystr \<Rightarrow> pyerr + pyfloat) \<Rightarrow>
     (real \<Rightarrow> real) \<Rightarrow> (real \<Rightarrow> real) \<Rightarrow>
     csv_row list option \<Rightarrow> csv_row list option \<Rightarrow> nat list \<times> (exit + figure)" where
  "main_script pagerank float rnd log10 line_file coords_file =
     (case build_graph_from_csv line_file DiGraph of
        (ok, G) \<Rightarrow>
          if \<not> ok then ([1], Inl ExitGraphLoad)
          else
            (case load_coordinates_from_csv float coords_file of
               None \<Rightarrow> ([1, 2], Inl ExitNoCoordinates)
             | Some pos \<Rightarrow>
                 if pos = [] then ([1, 2], Inl ExitNoCoordinates)
                 else
                   (let (stages, r) = filter_rank_render pagerank rnd log10 G pos
                    in (1 # 2 # stages, r))))"

section \<open>Auxiliary notions and example inputs\<close>

definition edge_of_row :: "csv_row \<Rightarrow> (pystr \<times> pystr) option" where
  "edge_of_row row =
     (case (row_get row SRC, row_get row DST) of
        (Some s, Some d) \<Rightarrow> if s \<noteq> [] \<and> d \<noteq> [] then Some (s, d) else None
      | _ \<Rightarrow> None)"

definition closed_graph :: "digraph \<Rightarrow> bool" where
  "closed_graph g =
     (distinct (edges g) \<and>
      (\<forall>e \<in> set (edges g). fst e \<in> set (nodes g) \<and> snd e \<in> set (nodes g)))"

text \<open>Whether \<open>float\<close> converts a field, and whether it converts it to a finite number.\<close>

definition converts :: "(pystr \<Rightarrow> pyerr + pyfloat) \<Rightarrow> pystr option \<Rightarrow> bool" where
  "converts float v =
     (case v of None \<Rightarrow> False | Some s \<Rightarrow> (case float s of Inl _ \<Rightarrow> False | Inr _ \<Rightarrow> True))"

definition parses_finite :: "(pystr \<Rightarrow> pyerr + pyfloat) \<Rightarrow> pystr option \<Rightarrow> bool" where
  "parses_finite float v =
     (case v of
        None \<Rightarrow> False
      | Some s \<Rightarrow> (case float s of Inr (Fin _) \<Rightarrow> True | _ \<Rightarrow> False))"

text \<open>A coordinate record that passes every check of the loader.\<close>

definition accepted :: "(pystr \<Rightarrow> pyerr + pyfloat) \<Rightarrow> csv_row \<Rightarrow> bool" where
  "accepted float row \<longleftrightarrow>
     truthy (row_get row NAME) \<and> truthy (row_get row LNG) \<and> truthy (row_get row LAT) \<and>
     converts float (row_get row LNG) \<and> converts float (row_get row LAT)"

text \<open>
  A coordinate record whose three fields are present and non-empty and whose two
  coordinate fields parse as finite numbers.
\<close>

definition finite_record :: "(pystr \<Rightarrow> pyerr + pyfloat) \<Rightarrow> csv_row \<Rightarrow> bool" where
  "finite_record float row \<longleftrightarrow>
     truthy (row_get row NAME) \<and> truthy (row_get row LNG) \<and> truthy (row_get row LAT) \<and>
     parses_finite float (row_get row LNG) \<and> parses_finite float (row_get row LAT)"

text \<open>Rows of the two files, and the inputs of the examples.\<close>

definition line_row :: "pystr option \<Rightarrow> pystr option \<Rightarrow> csv_row" where
  "line_row s d = [SRC \<mapsto> s, DST \<mapsto> d]"

definition coord_row :: "pystr option \<Rightarrow> pystr option \<Rightarrow> pystr option \<Rightarrow> csv_row" where
  "coord_row n lon lat = [NAME \<mapsto> n, LNG \<mapsto> lon, LAT \<mapsto> lat]"

definition example_lines :: "csv_row list" where
  "example_lines =
     [line_row (Some (ascii ''A'')) (Some (ascii ''B'')),
      line_row (Some (ascii ''B'')) (Some (ascii ''C'')),
      line_row (Some (ascii ''A'')) (Some (ascii ''B'')),
      line_row (Some []) (Some (ascii ''C'')),
      [SRC \<mapsto> Some (ascii ''C'')]]"

text \<open>The names U+5317 U+4EAC U+7AD9 (with the designator) and U+5317 U+4EAC.\<close>

definition beijing_zhan :: pystr where "beijing_zhan = [21271, 20140, 31449]"
definition beijing :: pystr where "beijing = [21271, 20140]"

text \<open>Coordinates for A, B and C, and a graph that also has a node D without any.\<close>

definition example_pos :: pos_dict where
  "example_pos =
     [(ascii ''A'', (Fin 100, Fin 30)), (ascii ''E'', (Fin 90, Fin 20)),
      (ascii ''B'', (Fin 110, Fin 35)), (ascii ''C'', (Fin 120, Fin 40))]"

definition example_graph_D :: digraph where
  "example_graph_D =
     \<lparr>nodes = [ascii ''A'', ascii ''B'', ascii ''D'', ascii ''C''],
      edges = [(ascii ''A'', ascii ''B''), (ascii ''B'', ascii ''D''), (ascii ''D'', ascii ''C''),
               (ascii ''B'', ascii ''C'')]\<rparr>"

text \<open>
  Seventeen scored nodes, named by the single letters A to Q; the sixteenth has the
  highest score and the others are tied.
\<close>

definition many_scores :: score_map where
  "many_scores =
     [([65], 1 / 20), ([66], 1 / 20), ([67], 1 / 20), ([68], 1 / 20), ([69], 1 / 20),
      ([70], 1 / 20), ([71], 1 / 20), ([72], 1 / 20), ([73], 1 / 20), ([74], 1 / 20),
      ([75], 1 / 20), ([76], 1 / 20), ([77], 1 / 20), ([78], 1 / 20), ([79], 1 / 20),
      ([80], 1 / 5), ([81], 1 / 20)]"

text \<open>
  Coordinate rows: the same station with and without the designator, and a row whose
  longitude is not a number.
\<close>

definition beijing_zhan_row :: csv_row where
  "beijing_zhan_row = coord_row (Some beijing_zhan) (Some (ascii ''116.4'')) (Some (ascii ''39.9''))"

definition beijing_row :: csv_row where
  "beijing_row = coord_row (Some beijing) (Some (ascii ''116.5'')) (Some (ascii ''40''))"

definition malformed_row :: csv_row where
  "malformed_row = coord_row (Some (ascii ''Q'')) (Some (ascii ''abc'')) (Some (ascii ''1''))"

definition example_coord_rows :: "csv_row list" where
  "example_coord_rows = [beijing_zhan_row, beijing_row, malformed_row]"

text \<open>A ranking that gives every node the same score, to run the script on an example.\<close>

definition uniform_rank :: "digraph \<Rightarrow> pyerr + score_map" where
  "uniform_rank G = Inr (map (\<lambda>n. (n, 1 / real (length (nodes G)))) (nodes G))"

text \<open>A coordinate row whose longitude text is \<open>inf\<close>.\<close>

definition inf_row :: csv_row where
  "inf_row = coord_row (Some (ascii ''A'')) (Some (ascii ''inf'')) (Some (ascii ''39.9''))"



section \<open>The examples, evaluated\<close>

lemmas py_float_defs = py_float_def strip_def split_sign_def ascii_def lower_def mantissa_def
  exponent_def is_digit_def is_space_def digits_value_def scale10_def to_binary64_def

lemmas coord_defs = load_coordinates_from_csv_def load_coordinates_row_def coord_entry_def
  coord_row_def row_get_def truthy_def NAME_def LNG_def LAT_def strip_designator_def
  endswith_def designator_def

lemma example_coords_loaded:
  "load_coordinates_from_csv py_float (Some example_coord_rows)
     = Some [(beijing, (Fin (1165 / 10), Fin 40))]"
  by (simp add: example_coord_rows_def beijing_zhan_row_def beijing_row_def malformed_row_def
      coord_defs py_float_defs beijing_def beijing_zhan_def)

lemma many_sorted:
  "sorted_stations many_scores =
     [([80], 1 / 5),
      ([65], 1 / 20), ([66], 1 / 20), ([67], 1 / 20), ([68], 1 / 20), ([69], 1 / 20),
      ([70], 1 / 20), ([71], 1 / 20), ([72], 1 / 20), ([73], 1 / 20), ([74], 1 / 20),
      ([75], 1 / 20), ([76], 1 / 20), ([77], 1 / 20), ([78], 1 / 20), ([79], 1 / 20),
      ([81], 1 / 20)]"
  by (simp add: sorted_stations_def many_scores_def)

lemma beijing_zhan_row_entry:
  "coord_entry py_float beijing_zhan_row = Some (beijing, (Fin (1164 / 10), Fin (399 / 10)))"
  by (simp add: beijing_zhan_row_def coord_defs py_float_defs beijing_def beijing_zhan_def)

lemma beijing_row_entry:
  "coord_entry py_float beijing_row = Some (beijing, (Fin (1165 / 10), Fin 40))"
  by (simp add: beijing_row_def coord_defs py_float_defs beijing_def)

lemma malformed_row_entry: "coord_entry py_float malformed_row = None"
  by (simp add: malformed_row_def coord_defs py_float_defs)

lemma inf_row_entry:
  "coord_entry py_float inf_row = Some (ascii ''A'', (PInf, Fin (399 / 10)))"
  by (simp add: inf_row_def coord_defs py_float_defs)

lemma beijing_zhan_snoc: "beijing_zhan = beijing @ [designator]"
  by (simp add: beijing_zhan_def beijing_def designator_def)

lemma beijing_no_designator: "\<forall>stem. beijing \<noteq> stem @ [designator]"
proof
  fix stem
  show "beijing \<noteq> stem @ [designator]"
  proof
    assume "beijing = stem @ [designator]"
    then have "last beijing = designator" by (metis last_snoc)
    then show False by (simp add: beijing_def designator_def)
  qed
qed

lemma name_of_beijing_zhan_row: "row_get beijing_zhan_row NAME = Some beijing_zhan"
  by (simp add: beijing_zhan_row_def coord_row_def row_get_def NAME_def LNG_def LAT_def ascii_def)

lemma name_of_beijing_row: "row_get beijing_row NAME = Some beijing"
  by (simp add: beijing_row_def coord_row_def row_get_def NAME_def LNG_def LAT_def ascii_def)

section \<open>Properties of the edge loader\<close>

lemma set_edges_add_edge: "set (edges (add_edge g u v)) = insert (u, v) (set (edges g))"
  by (auto simp: add_edge_def Let_def)

lemma set_nodes_add_edge: "set (nodes (add_edge g u v)) = insert u (insert v (set (nodes g)))"
  by (auto simp: add_edge_def Let_def)

lemma distinct_edges_add_edge: "distinct (edges g) \<Longrightarrow> distinct (edges (add_edge g u v))"
  by (auto simp: add_edge_def Let_def)

lemma distinct_nodes_add_edge: "distinct (nodes g) \<Longrightarrow> distinct (nodes (add_edge g u v))"
  by (auto simp: add_edge_def Let_def)

lemma closed_graph_add_edge: "closed_graph g \<Longrightarrow> closed_graph (add_edge g u v)"
  unfolding closed_graph_def
  by (auto simp: set_edges_add_edge set_nodes_add_edge distinct_edges_add_edge)

lemma add_edge_present:
  assumes "(u, v) \<in> set (edges g)" "u \<in> set (nodes g)" "v \<in> set (nodes g)"
  shows "add_edge g u v = g"
  using assms by (simp add: add_edge_def)

lemma build_graph_row_cases:
  "build_graph_row row g =
     (case edge_of_row row of None \<Rightarrow> g | Some (s, d) \<Rightarrow> add_edge g s d)"
  by (auto simp: build_graph_row_def edge_of_row_def truthy_def Let_def split: option.splits)

lemma closed_graph_row: "closed_graph g \<Longrightarrow> closed_graph (build_graph_row row g)"
  by (auto simp: build_graph_row_cases closed_graph_add_edge split: option.splits)

lemma closed_graph_fold: "closed_graph g \<Longrightarrow> closed_graph (fold build_graph_row rows g)"
  by (induction rows arbitrary: g) (auto simp: closed_graph_row)

lemma set_edges_fold:
  "set (edges (fold build_graph_row rows g)) =
     set (edges g) \<union> {e. \<exists>row \<in> set rows. edge_of_row row = Some e}"
proof (induction rows arbitrary: g)
  case Nil
  show ?case by simp
next
  case (Cons row rows)
  show ?case
  proof (cases "edge_of_row row")
    case None
    then show ?thesis
      using Cons.IH [of g] by (auto simp: build_graph_row_cases)
  next
    case (Some e)
    obtain s d where e: "e = (s, d)" by (cases e)
    from Some e show ?thesis
      using Cons.IH [of "add_edge g s d"]
      by (auto simp: build_graph_row_cases set_edges_add_edge)
  qed
qed

lemma closed_graph_DiGraph: "closed_graph DiGraph"
  by (simp add: closed_graph_def DiGraph_def)

lemma edge_of_row_Some:
  "edge_of_row row = Some (s, d) \<longleftrightarrow>
     row_get row SRC = Some s \<and> row_get row DST = Some d \<and> s \<noteq> [] \<and> d \<noteq> []"
  by (auto simp: edge_of_row_def split: option.splits)

text \<open>
  C4. Starting from the empty graph, the loader's edges are exactly the pairs
  \<open>(src, dst)\<close> of the rows in which both fields are present and non-empty; every
  other row leaves the graph as it is; no edge is stored twice; and adding an edge
  that the loaded graph already has changes nothing.
\<close>

theorem build_graph_from_csv_edges:
  fixes rows :: "csv_row list"
  defines "G \<equiv> snd (build_graph_from_csv (Some rows) DiGraph)"
  shows "set (edges G) =
           {(s, d). \<exists>row \<in> set rows. row_get row SRC = Some s \<and> row_get row DST = Some d
                                      \<and> s \<noteq> [] \<and> d \<noteq> []}
         \<and> distinct (edges G)
         \<and> (\<forall>row g. \<not> (truthy (row_get row SRC) \<and> truthy (row_get row DST))
                      \<longrightarrow> build_graph_row row g = g)
         \<and> (\<forall>e \<in> set (edges G). add_edge G (fst e) (snd e) = G)"
proof -
  have G: "G = fold build_graph_row rows DiGraph"
    by (simp add: G_def build_graph_from_csv_def)
  have cl: "closed_graph G"
    unfolding G by (rule closed_graph_fold [OF closed_graph_DiGraph])
  have 1: "set (edges G) =
           {(s, d). \<exists>row \<in> set rows. row_get row SRC = Some s \<and> row_get row DST = Some d
                                      \<and> s \<noteq> [] \<and> d \<noteq> []}"
    unfolding G set_edges_fold by (auto simp: DiGraph_def edge_of_row_Some)
  have 2: "distinct (edges G)"
    using cl by (simp add: closed_graph_def)
  have 3: "\<forall>row g. \<not> (truthy (row_get row SRC) \<and> truthy (row_get row DST))
                      \<longrightarrow> build_graph_row row g = g"
    by (auto simp: build_graph_row_def Let_def)
  have 4: "\<forall>e \<in> set (edges G). add_edge G (fst e) (snd e) = G"
  proof
    fix e assume e: "e \<in> set (edges G)"
    with cl have "fst e \<in> set (nodes G)" "snd e \<in> set (nodes G)"
      by (auto simp: closed_graph_def)
    with e show "add_edge G (fst e) (snd e) = G"
      by (intro add_edge_present) simp_all
  qed
  from 1 2 3 4 show ?thesis by blast
qed

lemma example_graph:
  "snd (build_graph_from_csv (Some example_lines) DiGraph) =
     \<lparr>nodes = [ascii ''A'', ascii ''B'', ascii ''C''],
      edges = [(ascii ''A'', ascii ''B''), (ascii ''B'', ascii ''C'')]\<rparr>"
  by (simp add: build_graph_from_csv_def example_lines_def line_row_def build_graph_row_def
      row_get_def truthy_def SRC_def DST_def ascii_def DiGraph_def add_edge_def)

theorem build_graph_from_csv_edges_witness:
  "edges (snd (build_graph_from_csv (Some example_lines) DiGraph)) =
     [(ascii ''A'', ascii ''B''), (ascii ''B'', ascii ''C'')]
   \<and> add_edge (snd (build_graph_from_csv (Some example_lines) DiGraph)) (ascii ''A'') (ascii ''B'')
       = snd (build_graph_from_csv (Some example_lines) DiGraph)
   \<and> \<not> truthy (row_get (line_row (Some []) (Some (ascii ''C''))) SRC)
   \<and> build_graph_row (line_row (Some []) (Some (ascii ''C''))) DiGraph = DiGraph"
proof -
  let ?G = "snd (build_graph_from_csv (Some example_lines) DiGraph)"
  let ?r = "line_row (Some []) (Some (ascii ''C''))"
  note main = build_graph_from_csv_edges [of example_lines]
  have e: "edges ?G = [(ascii ''A'', ascii ''B''), (ascii ''B'', ascii ''C'')]"
    by (simp add: example_graph)
  have "(ascii ''A'', ascii ''B'') \<in> set (edges ?G)"
    by (simp add: e)
  with main have a: "add_edge ?G (ascii ''A'') (ascii ''B'') = ?G"
    by fastforce
  have t: "\<not> truthy (row_get ?r SRC)"
    by (simp add: line_row_def row_get_def truthy_def SRC_def DST_def ascii_def)
  with main have s: "build_graph_row ?r DiGraph = DiGraph"
    by blast
  from e a t s show ?thesis by blast
qed

section \<open>Properties of the graph filter\<close>

lemma set_valid_nodes: "set (valid_nodes G pos) = set (nodes G) \<inter> fst ` set pos"
  by (auto simp: valid_nodes_def)

lemma graph_filter_Inr:
  assumes "graph_filter G pos = Inr (Gf, posf)"
  shows "Gf = subgraph G (valid_nodes G pos)"
    and "posf = filter (\<lambda>(node, coords). node \<in> set (valid_nodes G pos)) pos"
    and "valid_nodes G pos \<noteq> []"
  using assms by (auto simp: graph_filter_def Let_def split: if_splits)

text \<open>
  C2. When the graph filter produces a filtered graph, its nodes are the nodes of the
  graph that are keys of the coordinate dict; its edges are the edges of the graph
  with both endpoints among them; and the filtered coordinate dict holds exactly the
  items of the coordinate dict whose key is among them, with the same values.
\<close>

theorem graph_filter_induced:
  assumes "graph_filter G pos = Inr (G_filtered, pos_filtered)"
  shows "set (nodes G_filtered) = set (nodes G) \<inter> fst ` set pos
       \<and> (\<forall>e \<in> set (edges G_filtered).
            fst e \<in> set (nodes G) \<inter> fst ` set pos \<and> snd e \<in> set (nodes G) \<inter> fst ` set pos)
       \<and> set (edges G_filtered) =
            {e \<in> set (edges G). fst e \<in> set (nodes G) \<inter> fst ` set pos
                                 \<and> snd e \<in> set (nodes G) \<inter> fst ` set pos}
       \<and> set pos_filtered = {item \<in> set pos. fst item \<in> set (nodes G) \<inter> fst ` set pos}
       \<and> map_of pos_filtered = map_of pos |` (set (nodes G) \<inter> fst ` set pos)"
proof -
  let ?I = "set (nodes G) \<inter> fst ` set pos"
  note f = graph_filter_Inr [OF assms]
  have n: "set (nodes G_filtered) = ?I"
    by (auto simp: f(1) subgraph_def set_valid_nodes)
  have e: "set (edges G_filtered) = {e \<in> set (edges G). fst e \<in> ?I \<and> snd e \<in> ?I}"
    unfolding f(1) subgraph_def set_valid_nodes by (simp add: case_prod_beta)
  have p: "pos_filtered = AList.restrict ?I pos"
    by (simp add: f(2) set_valid_nodes AList.restrict_eq)
  have ps: "set pos_filtered = {item \<in> set pos. fst item \<in> ?I}"
    unfolding p AList.restrict_eq by (simp add: case_prod_beta)
  have pm: "map_of pos_filtered = map_of pos |` ?I"
    unfolding p by (rule restr_conv')
  from n e ps pm show ?thesis by blast
qed

lemma example_filter:
  "graph_filter example_graph_D example_pos =
     Inr (\<lparr>nodes = [ascii ''A'', ascii ''B'', ascii ''C''],
           edges = [(ascii ''A'', ascii ''B''), (ascii ''B'', ascii ''C'')]\<rparr>,
          [(ascii ''A'', (Fin 100, Fin 30)), (ascii ''B'', (Fin 110, Fin 35)),
           (ascii ''C'', (Fin 120, Fin 40))])"
  by (simp add: graph_filter_def valid_nodes_def subgraph_def example_graph_D_def
      example_pos_def ascii_def)

theorem graph_filter_induced_witness:
  "graph_filter example_graph_D example_pos =
     Inr (\<lparr>nodes = [ascii ''A'', ascii ''B'', ascii ''C''],
           edges = [(ascii ''A'', ascii ''B''), (ascii ''B'', ascii ''C'')]\<rparr>,
          [(ascii ''A'', (Fin 100, Fin 30)), (ascii ''B'', (Fin 110, Fin 35)),
           (ascii ''C'', (Fin 120, Fin 40))])
   \<and> {ascii ''A'', ascii ''B'', ascii ''C''} = set (nodes example_graph_D) \<inter> fst ` set example_pos
   \<and> ascii ''D'' \<notin> set (nodes example_graph_D) \<inter> fst ` set example_pos"
proof -
  have "set [ascii ''A'', ascii ''B'', ascii ''C'']
          = set (nodes example_graph_D) \<inter> fst ` set example_pos"
    using graph_filter_induced [OF example_filter] by simp
  moreover have "ascii ''D'' \<notin> set [ascii ''A'', ascii ''B'', ascii ''C'']"
    by (simp add: ascii_def)
  ultimately show ?thesis
    using example_filter by auto
qed

text \<open>
  C9. When no node of the graph is a key of the coordinate dict, the graph filter
  ends with \<open>EmptyIntersection\<close>; the script from the filter on starts stage 3 only
  and takes that exit, whatever the ranking function is; and so does the whole
  script when both loaders have succeeded, after stages 1, 2 and 3 and no other.
\<close>

theorem empty_intersection_exits:
  assumes "set (nodes G) \<inter> fst ` set pos = {}"
  shows "graph_filter G pos = Inl EmptyIntersection
       \<and> filter_rank_render pagerank rnd log10 G pos = ([3], Inl EmptyIntersection)
       \<and> (build_graph_from_csv line_file DiGraph = (True, G) \<and>
          load_coordinates_from_csv float coords_file = Some pos \<and> pos \<noteq> []
          \<longrightarrow> main_script pagerank float rnd log10 line_file coords_file
                = ([1, 2, 3], Inl EmptyIntersection))"
proof -
  have "set (valid_nodes G pos) = {}"
    using assms by (simp add: set_valid_nodes)
  then have g: "graph_filter G pos = Inl EmptyIntersection"
    by (simp add: graph_filter_def)
  then have r: "filter_rank_render pagerank rnd log10 G pos = ([3], Inl EmptyIntersection)"
    by (simp add: filter_rank_render_def)
  from g r show ?thesis
    by (simp add: main_script_def)
qed

theorem empty_intersection_exits_witness:
  "set (nodes (snd (build_graph_from_csv (Some example_lines) DiGraph)))
     \<inter> fst ` set [(beijing, (Fin (1165 / 10), Fin 40))] = {}
   \<and> main_script uniform_rank py_float binary64_round log10_rounded
         (Some example_lines) (Some example_coord_rows)
       = ([1, 2, 3], Inl EmptyIntersection)"
proof -
  let ?G = "snd (build_graph_from_csv (Some example_lines) DiGraph)"
  let ?pos = "[(beijing, (Fin (1165 / 10), Fin 40))]"
  have e: "set (nodes ?G) \<inter> fst ` set ?pos = {}"
    by (simp add: example_graph beijing_def ascii_def)
  have b: "build_graph_from_csv (Some example_lines) DiGraph = (True, ?G)"
    by (simp add: build_graph_from_csv_def)
  from empty_intersection_exits [OF e, of uniform_rank binary64_round log10_rounded
      "Some example_lines" py_float "Some example_coord_rows"] b example_coords_loaded e
  show ?thesis by simp
qed

section \<open>Properties of the label selector\<close>

lemma length_labels: "length (labels_to_draw sm) = min 15 (length sm)"
  by (simp add: labels_to_draw_def sorted_stations_def min.commute)

lemma sorted_stations_descending: "sorted_wrt (\<lambda>a b. snd b \<le> snd a) (sorted_stations sm)"
proof -
  have "sorted (map (\<lambda>item. - snd item) (sorted_stations sm))"
    unfolding sorted_stations_def by (rule sorted_sort_key)
  then show ?thesis
    by (simp add: sorted_map)
qed

lemma sorted_stations_stable:
  "filter (\<lambda>item. snd item = k) (sorted_stations sm) = filter (\<lambda>item. snd item = k) sm"
proof -
  have "filter (\<lambda>item. - snd item = - k) (sort_key (\<lambda>item. - snd item) sm)
          = filter (\<lambda>item. - snd item = - k) sm"
    by (rule sort_key_stable)
  then show ?thesis
    by (simp add: sorted_stations_def)
qed

lemma top_stable:
  "prefix (filter (\<lambda>item. snd item = k) (take n (sorted_stations sm)))
          (filter (\<lambda>item. snd item = k) sm)"
proof -
  have "prefix (filter (\<lambda>item. snd item = k) (take n (sorted_stations sm)))
               (filter (\<lambda>item. snd item = k) (sorted_stations sm))"
    by (intro filter_mono_prefix take_is_prefix)
  then show ?thesis
    by (simp add: sorted_stations_stable)
qed

lemma score_get_item:
  assumes "distinct (map fst sm)" "(n, s) \<in> set sm"
  shows "score_get sm n = s"
  using assms by (simp add: score_get_def)

lemma names_of_score:
  assumes "distinct (map fst sm)" "set xs \<subseteq> set sm"
  shows "filter (\<lambda>n. score_get sm n = k) (map fst xs) = map fst (filter (\<lambda>item. snd item = k) xs)"
proof -
  have "filter (\<lambda>item. score_get sm (fst item) = k) xs = filter (\<lambda>item. snd item = k) xs"
    using assms by (intro filter_cong refl) (auto dest!: subsetD score_get_item)
  then show ?thesis
    by (simp add: filter_map comp_def)
qed

lemma sorted_stations_mset: "mset (sorted_stations sm) = mset sm"
  by (simp add: sorted_stations_def)

lemma kept_bound_dropped:
  assumes "a \<in> set (take n (sorted_stations sm))" "b \<in> set (drop n (sorted_stations sm))"
  shows "snd b \<le> snd a"
proof -
  have "sorted_wrt (\<lambda>a b. snd b \<le> snd a)
          (take n (sorted_stations sm) @ drop n (sorted_stations sm))"
    using sorted_stations_descending [of sm] by simp
  with assms show ?thesis
    unfolding sorted_wrt_append by blast
qed

text \<open>
  C8. The label selector returns \<open>min 15 n\<close> names for a score dict of \<open>n\<close>
  items: the names of the first 15 items of the sorted list. The sorted list is a
  permutation of the dict's items, in non-increasing order of score, in which the items
  of each score keep the dict's order. So no item left out has a higher score than an
  item taken, and for each score the items taken with that score are the first items
  of the dict with that score, in the dict's order. As the keys of a dict are distinct,
  the same holds of the names returned, read through their scores.
\<close>

theorem label_selector_top15:
  "length (labels_to_draw sm) = min 15 (length sm)
   \<and> labels_to_draw sm = map fst (take 15 (sorted_stations sm))
   \<and> mset (sorted_stations sm) = mset sm
   \<and> sorted_wrt (\<lambda>a b. snd b \<le> snd a) (sorted_stations sm)
   \<and> (\<forall>k. filter (\<lambda>item. snd item = k) (sorted_stations sm) = filter (\<lambda>item. snd item = k) sm)
   \<and> sorted_wrt (\<lambda>a b. snd b \<le> snd a) (take 15 (sorted_stations sm))
   \<and> (\<forall>a \<in> set (take 15 (sorted_stations sm)). \<forall>b \<in> set (drop 15 (sorted_stations sm)).
         snd b \<le> snd a)
   \<and> (\<forall>k. prefix (filter (\<lambda>item. snd item = k) (take 15 (sorted_stations sm)))
                  (filter (\<lambda>item. snd item = k) sm))
   \<and> (distinct (map fst sm) \<longrightarrow>
        sorted_wrt (\<lambda>a b. score_get sm b \<le> score_get sm a) (labels_to_draw sm)
        \<and> (\<forall>k. prefix (filter (\<lambda>n. score_get sm n = k) (labels_to_draw sm))
                       (filter (\<lambda>n. score_get sm n = k) (map fst sm)))
        \<and> distinct (labels_to_draw sm)
        \<and> set (labels_to_draw sm) \<subseteq> fst ` set sm
        \<and> (\<forall>n \<in> fst ` set sm - set (labels_to_draw sm). \<forall>m \<in> set (labels_to_draw sm).
              score_get sm n \<le> score_get sm m))"
proof -
  let ?all = "sorted_stations sm"
  let ?top = "take 15 ?all"
  let ?rest = "drop 15 ?all"
  have 1: "sorted_wrt (\<lambda>a b. snd b \<le> snd a) ?top"
    by (intro sorted_wrt_take sorted_stations_descending)
  have all: "set ?all = set sm"
    by (simp add: sorted_stations_def)
  have sub: "set ?top \<subseteq> set sm"
    using set_take_subset [of 15 ?all] all by simp
  have subr: "set ?rest \<subseteq> set sm"
    using set_drop_subset [of 15 ?all] all by simp
  have split: "set sm = set ?top \<union> set ?rest"
    using set_append [of ?top ?rest] all by simp
  have 2: "\<forall>a \<in> set ?top. \<forall>b \<in> set ?rest. snd b \<le> snd a"
    using kept_bound_dropped by blast
  have 3: "sorted_wrt (\<lambda>a b. score_get sm b \<le> score_get sm a) (labels_to_draw sm)"
    if d: "distinct (map fst sm)"
  proof -
    have g: "score_get sm (fst item) = snd item" if "item \<in> set ?top" for item
      using that sub score_get_item [OF d, of "fst item" "snd item"] by auto
    have "sorted_wrt (\<lambda>a b. score_get sm (fst b) \<le> score_get sm (fst a)) ?top"
      by (rule sorted_wrt_mono_rel [OF _ 1]) (simp add: g)
    then show ?thesis
      by (simp add: labels_to_draw_def sorted_wrt_map)
  qed
  have 4: "prefix (filter (\<lambda>n. score_get sm n = k) (labels_to_draw sm))
                  (filter (\<lambda>n. score_get sm n = k) (map fst sm))"
    if d: "distinct (map fst sm)" for k
    unfolding labels_to_draw_def names_of_score [OF d sub] names_of_score [OF d subset_refl]
    by (intro map_mono_prefix top_stable)
  have 5: "distinct (labels_to_draw sm)" if d: "distinct (map fst sm)"
  proof -
    have "mset (map fst ?all) = mset (map fst sm)"
      by (simp add: sorted_stations_mset)
    then have "distinct (map fst ?all)"
      using d by (metis mset_eq_imp_distinct_iff)
    then have "distinct (take 15 (map fst ?all))"
      by (rule distinct_take)
    then show ?thesis
      by (simp add: labels_to_draw_def take_map)
  qed
  have 6: "set (labels_to_draw sm) \<subseteq> fst ` set sm"
    using sub by (auto simp: labels_to_draw_def)
  have 7: "score_get sm n \<le> score_get sm m"
    if d: "distinct (map fst sm)" and n: "n \<in> fst ` set sm - set (labels_to_draw sm)"
      and m: "m \<in> set (labels_to_draw sm)" for n m
  proof -
    from n obtain b where b: "b \<in> set sm" "n = fst b" "fst b \<notin> fst ` set ?top"
      by (auto simp: labels_to_draw_def)
    then have "b \<in> set ?rest"
      using split by auto
    moreover from m obtain a where a: "a \<in> set ?top" "m = fst a"
      by (auto simp: labels_to_draw_def)
    ultimately have le: "snd b \<le> snd a"
      using 2 by blast
    have "score_get sm (fst b) = snd b"
      using score_get_item [OF d, of "fst b" "snd b"] b(1) by simp
    moreover have "score_get sm (fst a) = snd a"
      using score_get_item [OF d, of "fst a" "snd a"] a(1) sub by auto
    ultimately show ?thesis
      using le a(2) b(2) by simp
  qed
  have 8: "labels_to_draw sm = map fst ?top"
    by (simp add: labels_to_draw_def)
  from 1 2 3 4 5 6 7 8 show ?thesis
    using length_labels [of sm] top_stable [of _ 15 sm] sorted_stations_mset [of sm]
      sorted_stations_descending [of sm] sorted_stations_stable [of _ sm]
    by blast
qed

theorem label_selector_top15_witness:
  "length many_scores = 17
   \<and> labels_to_draw many_scores =
        [[80], [65], [66], [67], [68], [69], [70], [71], [72], [73], [74], [75], [76], [77], [78]]
   \<and> drop 15 (sorted_stations many_scores) = [([79], 1 / 20), ([81], 1 / 20)]
   \<and> score_get many_scores [79] \<le> score_get many_scores [78]
   \<and> score_get many_scores [81] \<le> score_get many_scores [80]
   \<and> length (labels_to_draw many_scores) = 15"
proof -
  have d: "distinct (map fst many_scores)"
    by (simp add: many_scores_def)
  have l: "labels_to_draw many_scores =
        [[80], [65], [66], [67], [68], [69], [70], [71], [72], [73], [74], [75], [76], [77], [78]]"
    by (simp add: labels_to_draw_def many_sorted)
  have r: "drop 15 (sorted_stations many_scores) = [([79], 1 / 20), ([81], 1 / 20)]"
    by (simp add: many_sorted)
  have n: "length many_scores = 17"
    by (simp add: many_scores_def)
  note w = label_selector_top15 [of many_scores]
  have out: "[79] \<in> fst ` set many_scores - set (labels_to_draw many_scores)"
    "[81] \<in> fst ` set many_scores - set (labels_to_draw many_scores)"
    unfolding l by (simp_all add: many_scores_def)
  have inn: "[78] \<in> set (labels_to_draw many_scores)" "[80] \<in> set (labels_to_draw many_scores)"
    unfolding l by simp_all
  from w d out inn have "score_get many_scores [79] \<le> score_get many_scores [78]"
    "score_get many_scores [81] \<le> score_get many_scores [80]"
    by blast+
  moreover from w have "length (labels_to_draw many_scores) = min 15 (length many_scores)"
    by blast
  then have "length (labels_to_draw many_scores) = 15"
    unfolding n by simp
  ultimately show ?thesis
    using l r n by blast
qed


section \<open>Properties of the coordinate loader\<close>

lemma strip_designator_snoc: "strip_designator (stem @ [designator]) = stem"
  by (simp add: strip_designator_def endswith_def)

lemma strip_designator_other:
  "\<forall>stem. name \<noteq> stem @ [designator] \<Longrightarrow> strip_designator name = name"
proof (cases name rule: rev_cases)
  case Nil
  then show ?thesis by (simp add: strip_designator_def endswith_def)
next
  case (snoc stem c)
  assume "\<forall>stem. name \<noteq> stem @ [designator]"
  with snoc have "c \<noteq> designator" by auto
  with snoc show ?thesis by (simp add: strip_designator_def endswith_def)
qed

lemma coord_entry_accepted: "coord_entry float row \<noteq> None \<longleftrightarrow> accepted float row"
  by (auto simp: coord_entry_def accepted_def converts_def truthy_def Let_def
      split: option.splits sum.splits)

lemma coord_entry_key:
  assumes "accepted float row" "row_get row NAME = Some name"
  shows "\<exists>v. coord_entry float row = Some (strip_designator name, v)"
  using assms
  by (auto simp: coord_entry_def accepted_def converts_def truthy_def Let_def
      split: option.splits sum.splits)

lemma keys_load_row:
  "fst ` set (load_coordinates_row float row pos) =
     (case coord_entry float row of
        None \<Rightarrow> fst ` set pos
      | Some (k, v) \<Rightarrow> insert k (fst ` set pos))"
  by (auto simp: load_coordinates_row_def dom_update split: option.splits)

lemma map_of_load_row:
  "map_of (load_coordinates_row float row pos) =
     (case coord_entry float row of
        None \<Rightarrow> map_of pos
      | Some (k, v) \<Rightarrow> (map_of pos)(k \<mapsto> v))"
  by (auto simp: load_coordinates_row_def update_conv' split: option.splits)

lemma distinct_load_row:
  "distinct (map fst pos) \<Longrightarrow> distinct (map fst (load_coordinates_row float row pos))"
  by (auto simp: load_coordinates_row_def distinct_update split: option.splits)

lemma keys_fold:
  "fst ` set (fold (load_coordinates_row float) rows pos) =
     fst ` set pos \<union> {k. \<exists>row \<in> set rows. \<exists>v. coord_entry float row = Some (k, v)}"
proof (induction rows arbitrary: pos)
  case Nil
  show ?case by simp
next
  case (Cons row rows)
  show ?case
    unfolding fold_simps Cons.IH keys_load_row
    by (cases "coord_entry float row") auto
qed

lemma distinct_fold:
  "distinct (map fst pos) \<Longrightarrow> distinct (map fst (fold (load_coordinates_row float) rows pos))"
  by (induction rows arbitrary: pos) (simp_all add: distinct_load_row)

lemma map_of_fold_untouched:
  assumes "\<forall>r \<in> set rows. \<forall>v. coord_entry float r \<noteq> Some (k, v)"
  shows "map_of (fold (load_coordinates_row float) rows pos) k = map_of pos k"
  using assms
proof (induction rows arbitrary: pos)
  case Nil
  show ?case by simp
next
  case (Cons row rows)
  from Cons.prems have "map_of (load_coordinates_row float row pos) k = map_of pos k"
    by (auto simp: map_of_load_row split: option.splits)
  with Cons show ?case by simp
qed

text \<open>
  C5. For a coordinate record that the loader accepts: when its name is some stem
  followed by the designator character, the row stores its entry under that stem, the
  name less its one last character; when its name does not end with the designator,
  the row stores its entry under the name as it is. In both cases that key is the only
  key the row adds, and it is a key of the loaded dict.
\<close>

theorem designator_stripped_once:
  assumes "accepted float row" and "row_get row NAME = Some name"
  shows "(\<forall>stem. name = stem @ [designator] \<longrightarrow>
            fst ` set (load_coordinates_row float row pos) = insert stem (fst ` set pos))
       \<and> ((\<forall>stem. name \<noteq> stem @ [designator]) \<longrightarrow>
            fst ` set (load_coordinates_row float row pos) = insert name (fst ` set pos))
       \<and> (row \<in> set rows \<longrightarrow>
            (\<exists>loaded. load_coordinates_from_csv float (Some rows) = Some loaded
               \<and> (\<forall>stem. name = stem @ [designator] \<longrightarrow> stem \<in> fst ` set loaded)
               \<and> ((\<forall>stem. name \<noteq> stem @ [designator]) \<longrightarrow> name \<in> fst ` set loaded)))"
proof -
  from coord_entry_key [OF assms] obtain v
    where e: "coord_entry float row = Some (strip_designator name, v)" ..
  have k: "fst ` set (load_coordinates_row float row pos) = insert (strip_designator name) (fst ` set pos)"
    by (simp add: keys_load_row e)
  have l: "strip_designator name \<in> fst ` set (fold (load_coordinates_row float) rows [])"
    if "row \<in> set rows"
    unfolding keys_fold using that e by (cases v) fastforce
  show ?thesis
    using k l
    by (auto simp: load_coordinates_from_csv_def strip_designator_snoc strip_designator_other)
qed

theorem designator_stripped_once_witness:
  "accepted py_float beijing_zhan_row \<and> row_get beijing_zhan_row NAME = Some (beijing @ [designator])
   \<and> fst ` set (load_coordinates_row py_float beijing_zhan_row []) = {beijing}
   \<and> accepted py_float beijing_row \<and> row_get beijing_row NAME = Some beijing
   \<and> (\<forall>stem. beijing \<noteq> stem @ [designator])
   \<and> fst ` set (load_coordinates_row py_float beijing_row []) = {beijing}
   \<and> beijing_zhan_row \<in> set example_coord_rows
   \<and> (\<exists>loaded. load_coordinates_from_csv py_float (Some example_coord_rows) = Some loaded
         \<and> beijing \<in> fst ` set loaded)"
proof -
  have a1: "accepted py_float beijing_zhan_row"
    using coord_entry_accepted [of py_float beijing_zhan_row] by (simp add: beijing_zhan_row_entry)
  have a2: "accepted py_float beijing_row"
    using coord_entry_accepted [of py_float beijing_row] by (simp add: beijing_row_entry)
  have m: "beijing_zhan_row \<in> set example_coord_rows"
    by (simp add: example_coord_rows_def)
  note w1 = designator_stripped_once [OF a1 name_of_beijing_zhan_row, of "[]" example_coord_rows]
  note w2 = designator_stripped_once [OF a2 name_of_beijing_row, of "[]" example_coord_rows]
  from w1 m have k1: "fst ` set (load_coordinates_row py_float beijing_zhan_row []) = {beijing}"
    and l: "\<exists>loaded. load_coordinates_from_csv py_float (Some example_coord_rows) = Some loaded
              \<and> beijing \<in> fst ` set loaded"
    using beijing_zhan_snoc by auto
  from w2 beijing_no_designator
  have k2: "fst ` set (load_coordinates_row py_float beijing_row []) = {beijing}"
    by simp
  from a1 a2 m k1 k2 l beijing_no_designator name_of_beijing_row name_of_beijing_zhan_row
  show ?thesis
    unfolding beijing_zhan_snoc by blast
qed

text \<open>
  C10. The loaded dict holds, under a key, the coordinates of the last accepted
  record of the input that normalises to that key, and its keys are distinct. An
  accepted record named stem-plus-designator and an accepted record named by the bare
  stem are both stored under the stem.
\<close>

theorem last_record_wins:
  assumes "coord_entry float row = Some (k, v)"
      and "\<forall>r \<in> set later. \<forall>v'. coord_entry float r \<noteq> Some (k, v')"
  shows "(\<exists>loaded. load_coordinates_from_csv float (Some (earlier @ row # later)) = Some loaded
            \<and> map_of loaded k = Some v \<and> distinct (map fst loaded))
       \<and> (\<forall>r1 r2 k1 v1 k2 v2 stem.
            coord_entry float r1 = Some (k1, v1) \<and> row_get r1 NAME = Some (stem @ [designator]) \<and>
            coord_entry float r2 = Some (k2, v2) \<and> row_get r2 NAME = Some stem \<and>
            \<not> endswith stem designator \<longrightarrow> k1 = stem \<and> k2 = stem)"
proof -
  let ?step = "load_coordinates_row float"
  have "map_of (fold ?step (earlier @ row # later) []) k
          = map_of (?step row (fold ?step earlier [])) k"
    using map_of_fold_untouched [OF assms(2)] by simp
  also have "\<dots> = Some v"
    by (simp add: map_of_load_row assms(1))
  finally have 1: "map_of (fold ?step (earlier @ row # later) []) k = Some v" .
  have 2: "distinct (map fst (fold ?step (earlier @ row # later) []))"
    by (rule distinct_fold) simp
  have 3: "k1 = stem \<and> k2 = stem"
    if "coord_entry float r1 = Some (k1, v1)" "row_get r1 NAME = Some (stem @ [designator])"
       "coord_entry float r2 = Some (k2, v2)" "row_get r2 NAME = Some stem"
       "\<not> endswith stem designator"
    for r1 r2 k1 v1 k2 v2 stem
  proof -
    have a1: "accepted float r1" and a2: "accepted float r2"
      using that(1,3) coord_entry_accepted [of float r1] coord_entry_accepted [of float r2]
      by auto
    from coord_entry_key [OF a1 that(2)] that(1) have "k1 = stem"
      by (auto simp: strip_designator_snoc)
    moreover from coord_entry_key [OF a2 that(4)] that(3,5) have "k2 = stem"
      by (auto simp: strip_designator_def)
    ultimately show ?thesis by simp
  qed
  from 1 2 3 show ?thesis
    unfolding load_coordinates_from_csv_def by (simp; blast)
qed

theorem last_record_wins_witness:
  "coord_entry py_float beijing_zhan_row = Some (beijing, (Fin (1164 / 10), Fin (399 / 10)))
   \<and> coord_entry py_float beijing_row = Some (beijing, (Fin (1165 / 10), Fin 40))
   \<and> coord_entry py_float malformed_row = None
   \<and> (\<exists>loaded. load_coordinates_from_csv py_float (Some [beijing_zhan_row, beijing_row, malformed_row])
                  = Some loaded
         \<and> map_of loaded beijing = Some (Fin (1165 / 10), Fin 40))
   \<and> row_get beijing_zhan_row NAME = Some (beijing @ [designator])
   \<and> row_get beijing_row NAME = Some beijing
   \<and> \<not> endswith beijing designator"
proof -
  have h: "\<forall>r \<in> set [malformed_row]. \<forall>v'. coord_entry py_float r \<noteq> Some (beijing, v')"
    by (simp add: malformed_row_entry)
  have n: "\<not> endswith beijing designator"
    by (simp add: endswith_def beijing_def designator_def)
  from last_record_wins [OF beijing_row_entry h, of "[beijing_zhan_row]"]
  have "\<exists>loaded. load_coordinates_from_csv py_float (Some [beijing_zhan_row, beijing_row, malformed_row])
                  = Some loaded
         \<and> map_of loaded beijing = Some (Fin (1165 / 10), Fin 40)"
    by auto
  with n show ?thesis
    using beijing_zhan_row_entry beijing_row_entry malformed_row_entry
      name_of_beijing_zhan_row name_of_beijing_row
    unfolding beijing_zhan_snoc by blast
qed

text \<open>
  C6 as stated fails: a record whose longitude text is \<open>inf\<close> is stored, with an
  infinite longitude, although that field is not a finite number.
\<close>

theorem finite_decimal_counterexample:
  "coord_entry py_float inf_row = Some (ascii ''A'', (PInf, Fin (399 / 10)))
   \<and> load_coordinates_from_csv py_float (Some [inf_row]) = Some [(ascii ''A'', (PInf, Fin (399 / 10)))]
   \<and> \<not> finite_record py_float inf_row"
proof -
  have "\<not> parses_finite py_float (row_get inf_row LNG)"
    by (simp add: inf_row_def coord_row_def row_get_def NAME_def LNG_def LAT_def
        parses_finite_def py_float_defs)
  then have "\<not> finite_record py_float inf_row"
    by (simp add: finite_record_def)
  then show ?thesis
    by (simp add: inf_row_entry load_coordinates_from_csv_def load_coordinates_row_def)
qed

text \<open>
  C6, amended. A record contributes an entry exactly when its name, longitude and
  latitude fields are present and non-empty and \<open>float\<close> converts both coordinate
  fields, be it to a finite number, an infinity or not-a-number; in particular every
  record whose coordinate fields parse as finite numbers contributes. Any other record
  leaves the dict as it is, and the loader returns a dict for every list of records,
  whose keys are those of the contributing records.
\<close>

theorem float_accepted_records:
  "(coord_entry float row \<noteq> None \<longleftrightarrow> accepted float row)
   \<and> (finite_record float row \<longrightarrow> accepted float row)
   \<and> (\<not> accepted float row \<longrightarrow> load_coordinates_row float row pos = pos)
   \<and> (\<exists>loaded. load_coordinates_from_csv float (Some rows) = Some loaded
        \<and> fst ` set loaded =
            {k. \<exists>row \<in> set rows. accepted float row \<and> (\<exists>v. coord_entry float row = Some (k, v))})"
proof -
  have 1: "coord_entry float row \<noteq> None \<longleftrightarrow> accepted float row" for row
    by (rule coord_entry_accepted)
  have 2: "finite_record float row \<longrightarrow> accepted float row"
    by (auto simp: finite_record_def accepted_def parses_finite_def converts_def
        split: option.splits sum.splits pyfloat.splits)
  have 3: "\<not> accepted float row \<longrightarrow> load_coordinates_row float row pos = pos"
    using 1 [of row] by (cases "coord_entry float row") (simp_all add: load_coordinates_row_def)
  have 4: "fst ` set (fold (load_coordinates_row float) rows []) =
            {k. \<exists>row \<in> set rows. accepted float row \<and> (\<exists>v. coord_entry float row = Some (k, v))}"
    unfolding keys_fold using 1 by force
  from 1 2 3 4 show ?thesis
    by (simp add: load_coordinates_from_csv_def)
qed

theorem float_accepted_records_witness:
  "accepted py_float inf_row \<and> accepted py_float beijing_row \<and> finite_record py_float beijing_row
   \<and> \<not> accepted py_float malformed_row
   \<and> load_coordinates_row py_float malformed_row [(beijing, (Fin 1, Fin 2))] = [(beijing, (Fin 1, Fin 2))]
   \<and> (\<exists>loaded. load_coordinates_from_csv py_float (Some [malformed_row, inf_row]) = Some loaded
         \<and> ascii ''A'' \<in> fst ` set loaded)"
proof -
  note w = float_accepted_records [of py_float]
  have a1: "accepted py_float inf_row"
    using w [of inf_row] by (simp add: inf_row_entry)
  have a2: "accepted py_float beijing_row"
    using w [of beijing_row] by (simp add: beijing_row_entry)
  have f: "finite_record py_float beijing_row"
    by (simp add: finite_record_def parses_finite_def beijing_row_def coord_row_def row_get_def
        truthy_def NAME_def LNG_def LAT_def py_float_defs beijing_def)
  have a3: "\<not> accepted py_float malformed_row"
    using w [of malformed_row] by (simp add: malformed_row_entry)
  with w [of malformed_row "[(beijing, (Fin 1, Fin 2))]"]
  have s: "load_coordinates_row py_float malformed_row [(beijing, (Fin 1, Fin 2))]
             = [(beijing, (Fin 1, Fin 2))]"
    by blast
  from w [of inf_row "[]" "[malformed_row, inf_row]"] a1 inf_row_entry
  have l: "\<exists>loaded. load_coordinates_from_csv py_float (Some [malformed_row, inf_row]) = Some loaded
         \<and> ascii ''A'' \<in> fst ` set loaded"
    by fastforce
  from a1 a2 f a3 s l show ?thesis by blast
qed

section \<open>Properties of the rounding to binary64\<close>



lemma rne_of_int [simp]: "rne (of_int n) = n"
  by (simp add: rne_def)

lemma rne_numeral [simp]: "rne (numeral n) = numeral n"
  using rne_of_int [of "numeral n"] by simp
















subsection \<open>Values\<close>

lemma b64_0: "binary64_round 0 = 0"
  by (simp add: binary64_round_def)













section \<open>Properties of the visual scaling\<close>

lemma np_minimum_same: "np_minimum c c = c"
  by (cases c) simp_all

lemma np_maximum_same: "np_maximum c c = c"
  by (cases c) simp_all

lemma fold_minimum_const:
  "\<forall>y \<in> set r. y = c \<Longrightarrow> fold (\<lambda>y acc. np_minimum acc y) r c = c"
  by (induction r) (simp_all add: np_minimum_same)

lemma fold_maximum_const:
  "\<forall>y \<in> set r. y = c \<Longrightarrow> fold (\<lambda>y acc. np_maximum acc y) r c = c"
  by (induction r) (simp_all add: np_maximum_same)

lemma np_min_const: "xs \<noteq> [] \<Longrightarrow> \<forall>y \<in> set xs. y = c \<Longrightarrow> np_min xs = Inr c"
  by (cases xs) (simp_all add: np_min_def fold_minimum_const)

lemma np_max_const: "xs \<noteq> [] \<Longrightarrow> \<forall>y \<in> set xs. y = c \<Longrightarrow> np_max xs = Inr c"
  by (cases xs) (simp_all add: np_max_def fold_maximum_const)

lemma np_result_Fin: "\<bar>x\<bar> \<le> 2 ^ 1001 \<Longrightarrow> np_result rnd x = Fin (rnd x)"
  by (simp add: np_result_def abs_le_iff)

lemma zero_over_zero:
  assumes "rnd 0 = 0"
  shows "np_div rnd (np_sub rnd c c) (np_sub rnd c c) = NaN"
  using assms by (cases c) (simp_all add: np_sub_def np_result_Fin)

lemma constant_logs_nan:
  assumes "scores \<noteq> []" and "rnd 0 = 0"
      and all: "\<forall>y \<in> set (sizes_log rnd log10 scores). y = c"
  shows "node_sizes_scaled rnd log10 scores = Inr (replicate (length scores) NaN)"
proof -
  let ?sl = "sizes_log rnd log10 scores"
  have ne: "?sl \<noteq> []"
    using assms(1) by (simp add: sizes_log_def)
  have len: "length ?sl = length scores"
    by (simp add: sizes_log_def)
  have z: "np_div rnd (np_sub rnd l c) (np_sub rnd c c) = NaN" if "l \<in> set ?sl" for l
  proof -
    from all that have "l = c" by blast
    then show ?thesis by (simp only: zero_over_zero [of rnd, OF assms(2)])
  qed
  have "map (\<lambda>l. np_div rnd (np_sub rnd l c) (np_sub rnd c c)) ?sl = map (\<lambda>l. NaN) ?sl"
    by (rule map_cong [OF refl]) (rule z)
  then show ?thesis
    unfolding node_sizes_scaled_def Let_def np_min_const [OF ne all] np_max_const [OF ne all]
    by (simp add: map_replicate_const comp_def len)
qed

text \<open>
  C3, amended. When the log-scaled values of all scores are equal, the normalisation
  divides zero by zero in every component; numpy does not raise, the quotient is
  not-a-number, and every display size is not-a-number. This holds for every
  logarithm and every rounding that leaves zero as it is.
\<close>

theorem equal_logs_give_nan:
  assumes "scores \<noteq> []" and "rnd 0 = 0"
      and "\<forall>s \<in> set scores. \<forall>t \<in> set scores.
             sizes_log rnd log10 [s] = sizes_log rnd log10 [t]"
  shows "node_sizes_scaled rnd log10 scores = Inr (replicate (length scores) NaN)"
proof -
  obtain s0 r where sc: "scores = s0 # r"
    using assms(1) by (cases scores) auto
  let ?c = "np_log10 log10 (np_add rnd (Fin s0) (Fin (rnd (1 / 10 ^ 9))))"
  have "\<forall>y \<in> set (sizes_log rnd log10 scores). y = ?c"
  proof
    fix y assume "y \<in> set (sizes_log rnd log10 scores)"
    then obtain s where s: "s \<in> set scores"
      "y = np_log10 log10 (np_add rnd (Fin s) (Fin (rnd (1 / 10 ^ 9))))"
      by (auto simp: sizes_log_def)
    moreover have "s0 \<in> set scores"
      by (simp add: sc)
    ultimately have "sizes_log rnd log10 [s] = sizes_log rnd log10 [s0]"
      using assms(3) by blast
    with s(2) show "y = ?c"
      by (simp add: sizes_log_def)
  qed
  with assms(1,2) show ?thesis
    by (rule constant_logs_nan)
qed

text \<open>
  C3 as stated fails: for a single node, whose score is 1, the display size is
  not-a-number and not the midpoint 152.5.
\<close>

theorem midpoint_counterexample:
  "node_sizes_scaled binary64_round log10_rounded [1] = Inr [NaN]
   \<and> node_sizes_scaled binary64_round log10_rounded [1] \<noteq> Inr [Fin (305 / 2)]"
proof -
  have "node_sizes_scaled binary64_round log10_rounded [1] = Inr (replicate (length [1 :: real]) NaN)"
    by (rule constant_logs_nan [where c = "np_log10 log10_rounded
          (np_add binary64_round (Fin 1) (Fin (binary64_round (1 / 10 ^ 9))))"])
       (simp_all add: b64_0 sizes_log_def)
  then show ?thesis by simp
qed

theorem equal_logs_give_nan_witness:
  "binary64_round 0 = 0
   \<and> node_sizes_scaled binary64_round log10_rounded [1 / 2, 1 / 2] = Inr [NaN, NaN]"
proof -
  have h: "\<forall>s \<in> set [1 / 2, 1 / 2 :: real]. \<forall>t \<in> set [1 / 2, 1 / 2].
             sizes_log binary64_round log10_rounded [s] = sizes_log binary64_round log10_rounded [t]"
    by simp
  have n: "[1 / 2, 1 / 2] \<noteq> ([] :: real list)"
    by simp
  from equal_logs_give_nan [OF n b64_0 h]
  have "node_sizes_scaled binary64_round log10_rounded [1 / 2, 1 / 2] = Inr [NaN, NaN]"
    by (simp add: numeral_2_eq_2)
  then show ?thesis
    by (simp add: b64_0)
qed


















end
